theory Spec2Isabelle
  imports Main "HOL-Library.Sublist" "HOL-Library.Word"
begin

section \<open>Python values\<close>

text \<open>
  A Python \<^verbatim>\<open>str\<close> is a sequence of Unicode code points; \<^verbatim>\<open>bytes\<close> is a sequence of
  octets. The two are kept apart because \<^verbatim>\<open>read_txt\<close> converts one into the other.
\<close>

type_synonym pystr = "nat list"
type_synonym pybytes = "8 word list"

text \<open>An ASCII literal of the source as a list of code points.\<close>

definition asc :: "string \<Rightarrow> pystr" where
  "asc s = map of_char s"

text \<open>
  \<^verbatim>\<open>str.isspace\<close> on one code point: the set CPython uses for \<^verbatim>\<open>split()\<close> and \<^verbatim>\<open>strip()\<close>
  without arguments.
\<close>

definition isspace :: "nat \<Rightarrow> bool" where
  "isspace c \<longleftrightarrow>
     (9 \<le> c \<and> c \<le> 13) \<or> (28 \<le> c \<and> c \<le> 32) \<or> c = 133 \<or> c = 160 \<or> c = 5760 \<or>
     (8192 \<le> c \<and> c \<le> 8202) \<or> c = 8232 \<or> c = 8233 \<or> c = 8239 \<or> c = 8287 \<or> c = 12288"

text \<open>\<^verbatim>\<open>text.split()\<close>: the maximal runs of non-whitespace, in order. \<open>w\<close> is the run being read.\<close>

fun split_run :: "pystr \<Rightarrow> pystr \<Rightarrow> pystr list" where
  "split_run w [] = (if w = [] then [] else [w])"
| "split_run w (c # cs) =
     (if isspace c then (if w = [] then split_run [] cs else w # split_run [] cs)
      else split_run (w @ [c]) cs)"

definition split :: "pystr \<Rightarrow> pystr list" where
  "split text = split_run [] text"

text \<open>\<^verbatim>\<open>text.strip()\<close>.\<close>

definition strip :: "pystr \<Rightarrow> pystr" where
  "strip text = rev (dropWhile isspace (rev (dropWhile isspace text)))"

text \<open>\<^verbatim>\<open>text.startswith(p)\<close> is \<^const>\<open>prefix\<close>, \<^verbatim>\<open>p in text\<close> is \<^const>\<open>sublist\<close>.\<close>

text \<open>
  An exception object that \<^verbatim>\<open>except Exception\<close> catches. The source only ever formats it,
  so it is represented by \<^verbatim>\<open>str(e)\<close>.
\<close>

datatype pyexc = PyExc (exc_str: pystr)

text \<open>
  What \<^verbatim>\<open>response.json()\<close> can produce: \<open>PNone\<close> is Python's \<^verbatim>\<open>None\<close> (JSON \<^verbatim>\<open>null\<close>),
  a \<open>PDict\<close> lists the items of a dict whose keys are strings.
\<close>

datatype pyval =
    PNone
  | PBool bool
  | PInt int
  | PStr pystr
  | PList "pyval list"
  | PDict "(pystr \<times> pyval) list"

text \<open>The \<^verbatim>\<open>TypeError\<close> of subscripting a value of a type without \<^verbatim>\<open>__getitem__\<close>.\<close>

definition not_subscriptable :: "string \<Rightarrow> pyexc" where
  "not_subscriptable ty = PyExc ([39] @ asc ty @ [39] @ asc '' object is not subscriptable'')"

text \<open>\<^verbatim>\<open>v[0]\<close>.\<close>

fun getitem0 :: "pyval \<Rightarrow> pyexc + pyval" where
  "getitem0 (PList (x # xs)) = Inr x"
| "getitem0 (PList []) = Inl (PyExc (asc ''list index out of range''))"
| "getitem0 (PStr (c # cs)) = Inr (PStr [c])"
| "getitem0 (PStr []) = Inl (PyExc (asc ''string index out of range''))"
| "getitem0 (PDict kvs) = Inl (PyExc (asc ''0''))"
| "getitem0 PNone = Inl (not_subscriptable ''NoneType'')"
| "getitem0 (PBool b) = Inl (not_subscriptable ''bool'')"
| "getitem0 (PInt i) = Inl (not_subscriptable ''int'')"

text \<open>\<^verbatim>\<open>v[k]\<close> for a string key \<open>k\<close>.\<close>

fun getitem :: "pyval \<Rightarrow> pystr \<Rightarrow> pyexc + pyval" where
  "getitem (PDict kvs) k =
     (case map_of kvs k of
        None \<Rightarrow> Inl (PyExc ([39] @ k @ [39]))
      | Some v \<Rightarrow> Inr v)"
| "getitem (PList xs) k = Inl (PyExc (asc ''list indices must be integers or slices, not str''))"
| "getitem (PStr s) k =
     Inl (PyExc (asc ''string indices must be integers, not '' @ [39] @ asc ''str'' @ [39]))"
| "getitem PNone k = Inl (not_subscriptable ''NoneType'')"
| "getitem (PBool b) k = Inl (not_subscriptable ''bool'')"
| "getitem (PInt i) k = Inl (not_subscriptable ''int'')"

section \<open>The outside world\<close>

text \<open>
  Everything the program does to the outside is recorded, in order, in a trace. The
  remote services answer as functions of the trace so far and of the request, so that a
  service may answer the same request differently the third time it is asked.
\<close>

datatype event =
    HfPost pystr int int
  | Sleep int
  | GeminiGenerate pystr
  | DeepgramTranscribe pystr
  | StSubheader pystr
  | StWrite pyval
  | StSuccess pystr

text \<open>The object \<^verbatim>\<open>requests.post\<close> returns: \<^verbatim>\<open>status_code\<close>, and \<^verbatim>\<open>json()\<close>, which may raise.\<close>

record response =
  status_code :: int
  json :: "pyexc + pyval"

text \<open>
  \<^item> \<open>requests_post tr inputs min_length max_length\<close>: the POST to the Hugging Face
    inference endpoint;
  \<^item> \<open>genai_setup\<close>: the exception, if any, of importing and configuring
    \<^verbatim>\<open>google.generativeai\<close> and building the model object;
  \<^item> \<open>generate_content tr prompt\<close>: \<^verbatim>\<open>model.generate_content(prompt).text\<close>;
  \<^item> \<open>transcribe_file tr path\<close>: the body of the \<^verbatim>\<open>try\<close> of \<^verbatim>\<open>transcribe_audio\<close> up to the
    transcript read from the response;
  \<^item> \<open>gemini_model\<close>, \<open>dg_client\<close>: the globals of \<^verbatim>\<open>text_summariser.py\<close>, \<^verbatim>\<open>None\<close> or a client;
  \<^item> \<open>path_exists\<close>: \<^verbatim>\<open>os.path.exists\<close>;
  \<^item> \<open>file_ext\<close>: \<^verbatim>\<open>os.path.splitext(p)[1].lower()\<close>;
  \<^item> \<open>pdf_pages\<close>, \<open>docx_paragraphs\<close>: the page texts \<^verbatim>\<open>fitz\<close> extracts, the paragraph
    texts \<^verbatim>\<open>docx\<close> extracts;
  \<^item> \<open>open_read\<close>: the bytes of a file, or the exception of \<^verbatim>\<open>open\<close>;
  \<^item> \<open>decode_error_str\<close>: \<^verbatim>\<open>str(e)\<close> of the \<^verbatim>\<open>UnicodeDecodeError\<close> raised on these bytes;
  \<^item> \<open>sleep_refused tr d\<close>: the exception, if any, with which the platform's timer
    refuses a long delay \<open>d\<close>.
\<close>

record env =
  requests_post :: "event list \<Rightarrow> pystr \<Rightarrow> int \<Rightarrow> int \<Rightarrow> pyexc + response"
  genai_setup :: "pyexc option"
  generate_content :: "event list \<Rightarrow> pystr \<Rightarrow> pyexc + pystr"
  transcribe_file :: "event list \<Rightarrow> pystr \<Rightarrow> pyexc + pystr"
  gemini_model :: "unit option"
  dg_client :: "unit option"
  path_exists :: "pystr \<Rightarrow> bool"
  file_ext :: "pystr \<Rightarrow> pystr"
  pdf_pages :: "pystr \<Rightarrow> pyexc + pystr list"
  docx_paragraphs :: "pystr \<Rightarrow> pyexc + pystr list"
  open_read :: "pystr \<Rightarrow> pyexc + pybytes"
  decode_error_str :: "pybytes \<Rightarrow> pystr"
  sleep_refused :: "event list \<Rightarrow> int \<Rightarrow> pyexc option"

text \<open>
  \<^verbatim>\<open>time.sleep(d)\<close> for an integer \<open>d\<close>. A negative \<open>d\<close> raises \<^verbatim>\<open>ValueError\<close>. A \<open>d\<close> whose
  nanoseconds do not fit 64 bits raises \<^verbatim>\<open>OverflowError\<close>. Below that the platform's timer
  may still refuse the delay (\<^verbatim>\<open>OverflowError\<close> or \<^verbatim>\<open>OSError\<close>), but never one of at most
  4294967 seconds, the range of a 32-bit count of milliseconds.
\<close>

definition sleep :: "env \<Rightarrow> int \<Rightarrow> event list \<Rightarrow> (pyexc + unit) \<times> event list" where
  "sleep e d tr =
     (if d < 0 then (Inl (PyExc (asc ''sleep length must be non-negative'')), tr)
      else if 9223372036 < d then
        (Inl (PyExc (asc ''timestamp too large to convert to C _PyTime_t'')), tr)
      else if 4294967 < d then
        (case sleep_refused e tr d of
           Some x \<Rightarrow> (Inl x, tr)
         | None \<Rightarrow> (Inr (), tr @ [Sleep d]))
      else (Inr (), tr @ [Sleep d]))"

section \<open>The web application: \<^verbatim>\<open>app.py\<close>\<close>

subsection \<open>Summarizers\<close>

definition hugging_face :: pystr where
  "hugging_face = asc ''Hugging Face''"

definition gemini :: pystr where
  "gemini = asc ''Gemini''"

text \<open>The \<^verbatim>\<open>if length == "small" ... elif ... else\<close> of \<^verbatim>\<open>summarize_with_hf\<close>.\<close>

definition min_max_len :: "pystr \<Rightarrow> int \<times> int" where
  "min_max_len len =
     (if len = asc ''small'' then (20, 80)
      else if len = asc ''medium'' then (50, 150)
      else (100, 250))"

text \<open>
  The \<^verbatim>\<open>try\<close> block of one loop iteration. \<open>Inl e\<close>: it raised \<open>e\<close>; \<open>Inr (Some r)\<close>: it
  executed \<^verbatim>\<open>return r\<close>; \<open>Inr None\<close>: it ran to its end.
\<close>

definition hf_try ::
  "env \<Rightarrow> pystr \<Rightarrow> int \<Rightarrow> int \<Rightarrow> int \<Rightarrow> event list
     \<Rightarrow> (pyexc + (pyval \<times> pystr option) option) \<times> event list" where
  "hf_try e text min_len max_len delay tr =
     (let tr1 = tr @ [HfPost text min_len max_len] in
      case requests_post e tr text min_len max_len of
        Inl x \<Rightarrow> (Inl x, tr1)
      | Inr resp \<Rightarrow>
          if status_code resp = 200 then
            (case json resp of
               Inl x \<Rightarrow> (Inl x, tr1)
             | Inr body \<Rightarrow>
                 (case getitem0 body of
                    Inl x \<Rightarrow> (Inl x, tr1)
                  | Inr first \<Rightarrow>
                      (case getitem first (asc ''summary_text'') of
                         Inl x \<Rightarrow> (Inl x, tr1)
                       | Inr s \<Rightarrow> (Inr (Some (s, Some hugging_face)), tr1))))
          else
            (case sleep e delay tr1 of
               (Inl x, tr2) \<Rightarrow> (Inl x, tr2)
             | (Inr u, tr2) \<Rightarrow> (Inr None, tr2)))"

text \<open>
  One iteration with its \<^verbatim>\<open>except Exception: time.sleep(delay)\<close>. An exception of the
  handler's own \<^verbatim>\<open>sleep\<close> is not caught.
\<close>

definition hf_attempt ::
  "env \<Rightarrow> pystr \<Rightarrow> int \<Rightarrow> int \<Rightarrow> int \<Rightarrow> event list
     \<Rightarrow> (pyexc + (pyval \<times> pystr option) option) \<times> event list" where
  "hf_attempt e text min_len max_len delay tr =
     (case hf_try e text min_len max_len delay tr of
        (Inl x, tr1) \<Rightarrow>
          (case sleep e delay tr1 of
             (Inl y, tr2) \<Rightarrow> (Inl y, tr2)
           | (Inr u, tr2) \<Rightarrow> (Inr None, tr2))
      | (Inr r, tr1) \<Rightarrow> (Inr r, tr1))"

text \<open>
  \<^verbatim>\<open>for attempt in range(retries)\<close> followed by \<^verbatim>\<open>return None, None\<close>; the first argument
  counts the iterations left.
\<close>

fun hf_loop ::
  "nat \<Rightarrow> env \<Rightarrow> pystr \<Rightarrow> int \<Rightarrow> int \<Rightarrow> int \<Rightarrow> event list
     \<Rightarrow> (pyexc + pyval \<times> pystr option) \<times> event list" where
  "hf_loop 0 e text min_len max_len delay tr = (Inr (PNone, None), tr)"
| "hf_loop (Suc n) e text min_len max_len delay tr =
     (case hf_attempt e text min_len max_len delay tr of
        (Inl x, tr1) \<Rightarrow> (Inl x, tr1)
      | (Inr (Some r), tr1) \<Rightarrow> (Inr r, tr1)
      | (Inr None, tr1) \<Rightarrow> hf_loop n e text min_len max_len delay tr1)"

definition summarize_with_hf ::
  "env \<Rightarrow> pystr \<Rightarrow> pystr \<Rightarrow> int \<Rightarrow> int \<Rightarrow> event list
     \<Rightarrow> (pyexc + pyval \<times> pystr option) \<times> event list" where
  "summarize_with_hf e text len retries delay tr =
     (if List.length (split text) < 5 then (Inr (PNone, None), tr)
      else
        (case min_max_len len of
           (min_len, max_len) \<Rightarrow> hf_loop (nat retries) e text min_len max_len delay tr))"

text \<open>The \<^verbatim>\<open>try\<close> block of \<^verbatim>\<open>summarize_with_gemini\<close>.\<close>

definition gemini_prompt :: "pystr \<Rightarrow> pystr \<Rightarrow> pystr" where
  "gemini_prompt text len =
     asc ''Summarize this text in a '' @ len @ asc '' length:'' @ [10, 10] @ text"

definition gemini_try ::
  "env \<Rightarrow> pystr \<Rightarrow> pystr \<Rightarrow> event list \<Rightarrow> (pyexc + pyval \<times> pystr option) \<times> event list" where
  "gemini_try e text len tr =
     (case genai_setup e of
        Some x \<Rightarrow> (Inl x, tr)
      | None \<Rightarrow>
          (let prompt = gemini_prompt text len in
           case generate_content e tr prompt of
             Inl x \<Rightarrow> (Inl x, tr @ [GeminiGenerate prompt])
           | Inr t \<Rightarrow> (Inr (PStr t, Some gemini), tr @ [GeminiGenerate prompt])))"

definition summarize_with_gemini ::
  "env \<Rightarrow> pystr \<Rightarrow> pystr \<Rightarrow> event list \<Rightarrow> (pyexc + pyval \<times> pystr option) \<times> event list" where
  "summarize_with_gemini e text len tr =
     (case gemini_try e text len tr of
        (Inl x, tr1) \<Rightarrow> (Inr (PNone, None), tr1)
      | (Inr r, tr1) \<Rightarrow> (Inr r, tr1))"

subsection \<open>Summarize text\<close>

text \<open>
  The pair \<^verbatim>\<open>summarize_text\<close> returns. \<open>succeeded\<close> is not a value the Python computes: it
  records which \<^verbatim>\<open>return\<close> produced the pair, \<open>True\<close> for the final
  \<^verbatim>\<open>return summary, used_model\<close> and \<open>False\<close> for the three returns of a fixed message.
\<close>

record result =
  summary :: pyval
  used_model :: "pystr option"
  succeeded :: bool

definition msg_hf_failed :: pystr where
  "msg_hf_failed =
     10060 # asc '' Hugging Face summarization failed. Check API key or input length.''"

definition msg_gemini_failed :: pystr where
  "msg_gemini_failed = 10060 # asc '' Gemini summarization failed. Check API key or input.''"

definition msg_both_failed :: pystr where
  "msg_both_failed = 10060 # asc '' Both Hugging Face and Gemini summarization failed.''"

definition failure :: "pystr \<Rightarrow> pystr option \<Rightarrow> result" where
  "failure msg m = \<lparr>summary = PStr msg, used_model = m, succeeded = False\<rparr>"

definition success :: "pyval \<times> pystr option \<Rightarrow> result" where
  "success r = \<lparr>summary = fst r, used_model = snd r, succeeded = True\<rparr>"

definition summarize_text ::
  "env \<Rightarrow> pystr \<Rightarrow> pystr \<Rightarrow> pystr \<Rightarrow> event list \<Rightarrow> (pyexc + result) \<times> event list" where
  "summarize_text e text model_choice len tr =
     (if model_choice = hugging_face then
        (case summarize_with_hf e text len 3 2 tr of
           (Inl x, tr1) \<Rightarrow> (Inl x, tr1)
         | (Inr r, tr1) \<Rightarrow>
             if fst r = PNone then (Inr (failure msg_hf_failed (Some hugging_face)), tr1)
             else (Inr (success r), tr1))
      else if model_choice = gemini then
        (case summarize_with_gemini e text len tr of
           (Inl x, tr1) \<Rightarrow> (Inl x, tr1)
         | (Inr r, tr1) \<Rightarrow>
             if fst r = PNone then (Inr (failure msg_gemini_failed (Some gemini)), tr1)
             else (Inr (success r), tr1))
      else
        (case summarize_with_hf e text len 3 2 tr of
           (Inl x, tr1) \<Rightarrow> (Inl x, tr1)
         | (Inr r, tr1) \<Rightarrow>
             (case (if fst r = PNone then summarize_with_gemini e text len tr1
                    else (Inr r, tr1)) of
                (Inl x, tr2) \<Rightarrow> (Inl x, tr2)
              | (Inr r2, tr2) \<Rightarrow>
                  if fst r2 = PNone then (Inr (failure msg_both_failed None), tr2)
                  else (Inr (success r2), tr2))))"

subsection \<open>Deepgram audio\<close>

definition transcribe_audio ::
  "env \<Rightarrow> pystr \<Rightarrow> event list \<Rightarrow> (pyexc + pystr) \<times> event list" where
  "transcribe_audio e file_path tr =
     (case transcribe_file e tr file_path of
        Inl x \<Rightarrow> (Inr (asc ''Deepgram error: '' @ exc_str x), tr @ [DeepgramTranscribe file_path])
      | Inr transcript \<Rightarrow> (Inr transcript, tr @ [DeepgramTranscribe file_path]))"

subsection \<open>File readers\<close>

text \<open>
  \<^verbatim>\<open>bytes.decode("utf-8")\<close> with the default strict error handler: the well-formed byte
  sequences of the Unicode standard, no overlong form, no surrogate, nothing above
  U+10FFFF. \<open>None\<close> stands for the \<^verbatim>\<open>UnicodeDecodeError\<close>.
\<close>

definition is_cont :: "8 word \<Rightarrow> bool" where
  "is_cont b \<longleftrightarrow> 128 \<le> unat b \<and> unat b < 192"

definition cont_bits :: "8 word \<Rightarrow> nat" where
  "cont_bits b = unat b - 128"

fun utf8_decode :: "pybytes \<Rightarrow> pystr option" where
  "utf8_decode [] = Some []"
| "utf8_decode (b0 # bs) =
     (if unat b0 < 128 then map_option ((#) (unat b0)) (utf8_decode bs)
      else if unat b0 < 194 then None
      else if unat b0 < 224 then
        (case bs of
           b1 # r1 \<Rightarrow>
             if is_cont b1
             then map_option ((#) ((unat b0 - 192) * 64 + cont_bits b1)) (utf8_decode r1)
             else None
         | _ \<Rightarrow> None)
      else if unat b0 < 240 then
        (case bs of
           b1 # b2 # r2 \<Rightarrow>
             if is_cont b1 \<and> is_cont b2 \<and>
                2048 \<le> (unat b0 - 224) * 4096 + cont_bits b1 * 64 + cont_bits b2 \<and>
                \<not> (55296 \<le> (unat b0 - 224) * 4096 + cont_bits b1 * 64 + cont_bits b2 \<and>
                   (unat b0 - 224) * 4096 + cont_bits b1 * 64 + cont_bits b2 < 57344)
             then map_option ((#) ((unat b0 - 224) * 4096 + cont_bits b1 * 64 + cont_bits b2))
                    (utf8_decode r2)
             else None
         | _ \<Rightarrow> None)
      else if unat b0 < 245 then
        (case bs of
           b1 # b2 # b3 # r3 \<Rightarrow>
             if is_cont b1 \<and> is_cont b2 \<and> is_cont b3 \<and>
                65536 \<le> (unat b0 - 240) * 262144 + cont_bits b1 * 4096 + cont_bits b2 * 64
                          + cont_bits b3 \<and>
                (unat b0 - 240) * 262144 + cont_bits b1 * 4096 + cont_bits b2 * 64
                  + cont_bits b3 < 1114112
             then map_option
                    ((#) ((unat b0 - 240) * 262144 + cont_bits b1 * 4096 + cont_bits b2 * 64
                          + cont_bits b3))
                    (utf8_decode r3)
             else None
         | _ \<Rightarrow> None)
      else None)"

text \<open>
  \<^verbatim>\<open>str.encode("utf-8")\<close>, to say which byte sequences are the encoding of a string.
  \<open>None\<close>: the code point is a surrogate or not a code point at all.
\<close>

definition utf8_encode_cp :: "nat \<Rightarrow> pybytes option" where
  "utf8_encode_cp c =
     (if c < 128 then Some [of_nat c]
      else if c < 2048 then Some [of_nat (192 + c div 64), of_nat (128 + c mod 64)]
      else if c < 65536 then
        (if 55296 \<le> c \<and> c < 57344 then None
         else Some [of_nat (224 + c div 4096), of_nat (128 + c div 64 mod 64),
                    of_nat (128 + c mod 64)])
      else if c < 1114112 then
        Some [of_nat (240 + c div 262144), of_nat (128 + c div 4096 mod 64),
              of_nat (128 + c div 64 mod 64), of_nat (128 + c mod 64)]
      else None)"

fun utf8_encode :: "pystr \<Rightarrow> pybytes option" where
  "utf8_encode [] = Some []"
| "utf8_encode (c # cs) =
     (case utf8_encode_cp c of
        None \<Rightarrow> None
      | Some bs \<Rightarrow> map_option ((@) bs) (utf8_encode cs))"

text \<open>
  \<^verbatim>\<open>read_txt\<close> of \<^verbatim>\<open>app.py\<close>; the argument is what \<^verbatim>\<open>file.read()\<close> returns.
\<close>

definition read_txt :: "env \<Rightarrow> pybytes \<Rightarrow> pyexc + pystr" where
  "read_txt e content =
     (case utf8_decode content of
        None \<Rightarrow> Inl (PyExc (decode_error_str e content))
      | Some s \<Rightarrow> Inr s)"

subsection \<open>The audio branch of the page\<close>

text \<open>One entry of \<^verbatim>\<open>st.session_state.history\<close>.\<close>

record hist_item =
  item_input :: pystr
  item_summary :: pyval
  item_model :: "pystr option"

text \<open>
  The statements that follow every call of \<^verbatim>\<open>summarize_text\<close> in the page: show the
  summary, show the model when \<^verbatim>\<open>used_model\<close> is truthy, append to the history.
\<close>

definition summarize_and_show ::
  "env \<Rightarrow> pystr \<Rightarrow> pystr \<Rightarrow> pystr \<Rightarrow> hist_item list \<Rightarrow> event list
     \<Rightarrow> (pyexc + hist_item list) \<times> event list" where
  "summarize_and_show e src model_choice len history tr =
     (case summarize_text e src model_choice len tr of
        (Inl x, tr1) \<Rightarrow> (Inl x, tr1)
      | (Inr r, tr1) \<Rightarrow>
          (let tr2 = tr1 @ [StSubheader (9989 # asc '' Summary''), StWrite (summary r)];
               tr3 = (case used_model r of
                        None \<Rightarrow> tr2
                      | Some m \<Rightarrow>
                          if m = [] then tr2
                          else tr2 @ [StSuccess (128269 # asc '' Model Used: '' @ m)])
           in (Inr (history @ [\<lparr>item_input = take 100 src @ asc ''...'',
                                 item_summary = summary r,
                                 item_model = used_model r\<rparr>]), tr3)))"

text \<open>
  The body of \<^verbatim>\<open>if uploaded_audio and st.button(...)\<close>, from the call of
  \<^verbatim>\<open>transcribe_audio\<close> on.
\<close>

definition audio_branch ::
  "env \<Rightarrow> pystr \<Rightarrow> pystr \<Rightarrow> hist_item list \<Rightarrow> event list
     \<Rightarrow> (pyexc + hist_item list) \<times> event list" where
  "audio_branch e model_choice len history tr =
     (case transcribe_audio e (asc ''temp_audio'') tr of
        (Inl x, tr1) \<Rightarrow> (Inl x, tr1)
      | (Inr transcript, tr1) \<Rightarrow>
          (let tr2 = tr1 @ [StSubheader (asc ''Transcript''), StWrite (PStr transcript)] in
           if transcript \<noteq> [] \<and> \<not> prefix (asc ''Deepgram error'') transcript
           then summarize_and_show e transcript model_choice len history tr2
           else (Inr history, tr2)))"

section \<open>The command line program: \<^verbatim>\<open>text_summariser.py\<close>\<close>

subsection \<open>Document readers\<close>

definition error_mark :: pystr where
  "error_mark = 10060 # asc '' Error''"

definition cli_read_pdf :: "env \<Rightarrow> pystr \<Rightarrow> pystr" where
  "cli_read_pdf e file_path =
     (case pdf_pages e file_path of
        Inl x \<Rightarrow> error_mark @ asc '' reading PDF: '' @ exc_str x
      | Inr pages \<Rightarrow> concat pages)"

text \<open>\<^verbatim>\<open>sep.join(xs)\<close>.\<close>

fun join :: "pystr \<Rightarrow> pystr list \<Rightarrow> pystr" where
  "join sep [] = []"
| "join sep [x] = x"
| "join sep (x # y # ys) = x @ sep @ join sep (y # ys)"

definition cli_read_docx :: "env \<Rightarrow> pystr \<Rightarrow> pystr" where
  "cli_read_docx e file_path =
     (case docx_paragraphs e file_path of
        Inl x \<Rightarrow> error_mark @ asc '' reading DOCX: '' @ exc_str x
      | Inr paragraphs \<Rightarrow> join [10] paragraphs)"

text \<open>
  A file opened in text mode with the default \<^verbatim>\<open>newline=None\<close> is read with universal
  newlines: \<^verbatim>\<open>\r\n\<close> and a lone \<^verbatim>\<open>\r\<close> both arrive as \<^verbatim>\<open>\n\<close>. The flag says that the
  code point before was a carriage return.
\<close>

fun universal_newlines :: "bool \<Rightarrow> pystr \<Rightarrow> pystr" where
  "universal_newlines after_cr [] = []"
| "universal_newlines after_cr (c # cs) =
     (if c = 13 then 10 # universal_newlines True cs
      else if c = 10 \<and> after_cr then universal_newlines False cs
      else c # universal_newlines False cs)"

definition cli_read_txt :: "env \<Rightarrow> pystr \<Rightarrow> pystr" where
  "cli_read_txt e file_path =
     (case open_read e file_path of
        Inl x \<Rightarrow> error_mark @ asc '' reading TXT: '' @ exc_str x
      | Inr content \<Rightarrow>
          (case utf8_decode content of
             None \<Rightarrow> error_mark @ asc '' reading TXT: '' @ decode_error_str e content
           | Some s \<Rightarrow> universal_newlines False s))"

subsection \<open>Core summarization function\<close>

definition msg_not_configured :: pystr where
  "msg_not_configured = 10060 # asc '' Gemini API not configured. Cannot summarize.''"

definition msg_too_short :: pystr where
  "msg_too_short = [9888, 65039] @ asc '' Text is too short to summarize effectively.''"

definition cli_prompt :: "pystr \<Rightarrow> pystr \<Rightarrow> pystr" where
  "cli_prompt text len =
     asc ''Summarize this text in a '' @ len @
     asc '' detail. The summary should be concise and capture the key information.'' @
     [10, 10] @ asc ''Text:'' @ [10] @ text"

definition cli_summarize_text :: "env \<Rightarrow> pystr \<Rightarrow> pystr \<Rightarrow> event list \<Rightarrow> pystr \<times> event list" where
  "cli_summarize_text e text len tr =
     (if gemini_model e = None then (msg_not_configured, tr)
      else if strip text = [] \<or> List.length (split text) < 20 then (msg_too_short, tr)
      else
        (case generate_content e tr (cli_prompt text len) of
           Inl x \<Rightarrow> (asc ''[Gemini ERROR] '' @ exc_str x, tr @ [GeminiGenerate (cli_prompt text len)])
         | Inr t \<Rightarrow> (asc ''[Gemini] '' @ t, tr @ [GeminiGenerate (cli_prompt text len)])))"

subsection \<open>Audio transcription and summarization\<close>

definition msg_dg_not_configured :: pystr where
  "msg_dg_not_configured = 10060 # asc '' Deepgram API not configured. Cannot transcribe audio.''"

definition msg_audio_not_found :: pystr where
  "msg_audio_not_found = 10060 # asc '' Audio file not found at the specified path.''"

definition msg_no_speech :: pystr where
  "msg_no_speech = [9888, 65039] @ asc '' No speech detected in audio.''"

definition transcribe_and_summarize ::
  "env \<Rightarrow> pystr \<Rightarrow> pystr \<Rightarrow> event list \<Rightarrow> pystr \<times> event list" where
  "transcribe_and_summarize e file_path len tr =
     (if dg_client e = None then (msg_dg_not_configured, tr)
      else if \<not> path_exists e file_path then (msg_audio_not_found, tr)
      else
        (case transcribe_file e tr file_path of
           Inl x \<Rightarrow> (asc ''Deepgram error: '' @ exc_str x, tr @ [DeepgramTranscribe file_path])
         | Inr transcript \<Rightarrow>
             if strip transcript = [] then (msg_no_speech, tr @ [DeepgramTranscribe file_path])
             else cli_summarize_text e transcript len (tr @ [DeepgramTranscribe file_path])))"

subsection \<open>Document reading and summarization\<close>

definition msg_doc_not_found :: pystr where
  "msg_doc_not_found = 10060 # asc '' Document file not found at the specified path.''"

definition msg_unsupported :: pystr where
  "msg_unsupported = 10060 # asc '' Unsupported document type. Please use PDF, DOCX, or TXT.''"

definition msg_could_not_extract :: pystr where
  "msg_could_not_extract = [9888, 65039] @ asc '' Could not extract text from the document.''"

definition read_and_summarize_doc ::
  "env \<Rightarrow> pystr \<Rightarrow> pystr \<Rightarrow> event list \<Rightarrow> pystr \<times> event list" where
  "read_and_summarize_doc e file_path len tr =
     (if \<not> path_exists e file_path then (msg_doc_not_found, tr)
      else
        (case (if file_ext e file_path = asc ''.pdf'' then Some (cli_read_pdf e file_path)
               else if file_ext e file_path = asc ''.docx'' then Some (cli_read_docx e file_path)
               else if file_ext e file_path = asc ''.txt'' then Some (cli_read_txt e file_path)
               else None) of
           None \<Rightarrow> (msg_unsupported, tr)
         | Some text \<Rightarrow>
             if sublist error_mark text then (text, tr)
             else if strip text = [] then (msg_could_not_extract, tr)
             else cli_summarize_text e text len tr))"

section \<open>Classifying events and adapters\<close>

text \<open>The events the Hugging Face adapter produces, and those of the Gemini adapter.\<close>

fun hf_event :: "event \<Rightarrow> bool" where
  "hf_event (HfPost t a b) = True"
| "hf_event (Sleep d) = True"
| "hf_event ev = False"

fun gemini_event :: "event \<Rightarrow> bool" where
  "gemini_event (GeminiGenerate p) = True"
| "gemini_event ev = False"

definition adapter_event :: "event \<Rightarrow> bool" where
  "adapter_event ev \<longleftrightarrow> hf_event ev \<or> gemini_event ev"


text \<open>
  A deterministic stub: what the two summarization services answer depends on the
  request alone, not on what happened before.
\<close>

definition deterministic :: "env \<Rightarrow> bool" where
  "deterministic e \<longleftrightarrow>
     (\<forall>tr tr' t a b. requests_post e tr t a b = requests_post e tr' t a b) \<and>
     (\<forall>tr tr' p. generate_content e tr p = generate_content e tr' p)"

section \<open>Sample worlds\<close>

text \<open>Nothing answers: every remote call raises, every file is empty.\<close>

definition offline :: env where
  "offline =
     \<lparr>requests_post = (\<lambda>tr t a b. Inl (PyExc (asc ''connection refused''))),
      genai_setup = None,
      generate_content = (\<lambda>tr p. Inl (PyExc (asc ''connection refused''))),
      transcribe_file = (\<lambda>tr p. Inl (PyExc (asc ''connection refused''))),
      gemini_model = Some (),
      dg_client = Some (),
      path_exists = (\<lambda>p. True),
      file_ext = (\<lambda>p. asc ''.txt''),
      pdf_pages = (\<lambda>p. Inr []),
      docx_paragraphs = (\<lambda>p. Inr []),
      open_read = (\<lambda>p. Inr []),
      decode_error_str = (\<lambda>bs. asc ''invalid start byte''),
      sleep_refused = (\<lambda>tr d. None)\<rparr>"

text \<open>A Hugging Face reply with status 200 and body \<^verbatim>\<open>[{"summary_text": s}]\<close>.\<close>

definition hf_reply :: "pystr \<Rightarrow> response" where
  "hf_reply s = \<lparr>status_code = 200, json = Inr (PList [PDict [(asc ''summary_text'', PStr s)]])\<rparr>"

text \<open>Only Gemini answers, always with \<^verbatim>\<open>ok\<close>.\<close>

definition gemini_only :: env where
  "gemini_only = offline\<lparr>generate_content := (\<lambda>tr p. Inr (asc ''ok''))\<rparr>"

text \<open>Hugging Face answers at once; Gemini would answer too.\<close>

definition hf_ok :: env where
  "hf_ok = gemini_only\<lparr>requests_post := (\<lambda>tr t a b. Inr (hf_reply (asc ''ok'')))\<rparr>"

text \<open>Hugging Face answers with an empty summary.\<close>

definition hf_empty :: env where
  "hf_empty = offline\<lparr>requests_post := (\<lambda>tr t a b. Inr (hf_reply []))\<rparr>"



text \<open>A recording without speech.\<close>

definition silence :: env where
  "silence = gemini_only\<lparr>transcribe_file := (\<lambda>tr p. Inr [])\<rparr>"

text \<open>A PDF whose only page reads \<^verbatim>\<open>Fix: \<close> followed by the error mark.\<close>

definition marked_pdf :: env where
  "marked_pdf =
     gemini_only\<lparr>file_ext := (\<lambda>p. asc ''.pdf''),
                  pdf_pages := (\<lambda>p. Inr [asc ''Fix: '' @ error_mark])\<rparr>"

text \<open>A text file with the four bytes of \<^verbatim>\<open>a\r\nb\<close>.\<close>

definition crlf_file :: env where
  "crlf_file = offline\<lparr>open_read := (\<lambda>p. Inr [97, 13, 10, 98])\<rparr>"

text \<open>A text file with the UTF-8 bytes of the error mark's first code point and \<^verbatim>\<open>ok\<close>.\<close>

definition utf8_file :: env where
  "utf8_file = offline\<lparr>open_read := (\<lambda>p. Inr [226, 157, 140, 111, 107])\<rparr>"

section \<open>Facts about the model\<close>

lemma asc_Nil: "asc [] = []"
  by (simp add: asc_def)

lemma asc_Cons: "asc (c # cs) = of_char c # asc cs"
  by (simp add: asc_def)

lemma names_differ: "hugging_face \<noteq> gemini" "asc ''Auto'' \<noteq> hugging_face" "asc ''Auto'' \<noteq> gemini"
  by (simp_all add: hugging_face_def gemini_def asc_Cons asc_Nil)

lemma split_a: "split (asc ''a'') = [[97]]"
  by (simp add: split_def asc_Cons asc_Nil isspace_def)

lemma sleep_ok: "0 \<le> d \<Longrightarrow> d \<le> 4294967 \<Longrightarrow> sleep e d tr = (Inr (), tr @ [Sleep d])"
  by (simp add: sleep_def)

lemma hf_try_shape:
  assumes "0 \<le> delay" and "delay \<le> 4294967"
  shows "\<exists>r evs. hf_try e text a b delay tr = (r, tr @ evs) \<and> list_all hf_event evs \<and>
           (\<forall>x. r = Inr (Some x) \<longrightarrow> snd x = Some hugging_face)"
  using assms by (auto simp: hf_try_def sleep_ok Let_def split: sum.splits)

lemma hf_attempt_shape:
  assumes "0 \<le> delay" and "delay \<le> 4294967"
  shows "\<exists>r evs. hf_attempt e text a b delay tr = (Inr r, tr @ evs) \<and> list_all hf_event evs \<and>
           (\<forall>x. r = Some x \<longrightarrow> snd x = Some hugging_face)"
proof -
  obtain r evs where h: "hf_try e text a b delay tr = (r, tr @ evs)" "list_all hf_event evs"
    "\<forall>x. r = Inr (Some x) \<longrightarrow> snd x = Some hugging_face"
    using hf_try_shape [OF assms] by blast
  show ?thesis
  proof (cases r)
    case (Inl x)
    with h assms show ?thesis by (simp add: hf_attempt_def sleep_ok)
  next
    case (Inr y)
    with h show ?thesis by (simp add: hf_attempt_def)
  qed
qed

lemma hf_loop_shape:
  assumes "0 \<le> delay" and "delay \<le> 4294967"
  shows "\<exists>r evs. hf_loop n e text a b delay tr = (Inr r, tr @ evs) \<and> list_all hf_event evs \<and>
           (r = (PNone, None) \<or> snd r = Some hugging_face)"
proof (induction n arbitrary: tr)
  case 0
  show ?case by simp
next
  case (Suc n)
  obtain r evs where h: "hf_attempt e text a b delay tr = (Inr r, tr @ evs)" "list_all hf_event evs"
    "\<forall>x. r = Some x \<longrightarrow> snd x = Some hugging_face"
    using hf_attempt_shape [OF assms] by blast
  show ?case
  proof (cases r)
    case None
    obtain r' evs' where h': "hf_loop n e text a b delay (tr @ evs) = (Inr r', (tr @ evs) @ evs')"
      "list_all hf_event evs'" "r' = (PNone, None) \<or> snd r' = Some hugging_face"
      using Suc.IH by blast
    have "hf_loop (Suc n) e text a b delay tr = (Inr r', tr @ (evs @ evs'))"
      using h(1) h'(1) None by simp
    moreover have "list_all hf_event (evs @ evs')"
      using h(2) h'(2) by simp
    ultimately show ?thesis using h'(3) by blast
  next
    case (Some x)
    with h show ?thesis by auto
  qed
qed

lemma summarize_with_hf_shape:
  assumes "0 \<le> delay" and "delay \<le> 4294967"
  shows "\<exists>r evs. summarize_with_hf e text len retries delay tr = (Inr r, tr @ evs) \<and>
           list_all hf_event evs \<and> (r = (PNone, None) \<or> snd r = Some hugging_face)"
proof (cases "List.length (split text) < 5")
  case True
  then show ?thesis by (simp add: summarize_with_hf_def)
next
  case False
  obtain a b where ab: "min_max_len len = (a, b)" by (cases "min_max_len len")
  show ?thesis
    using False ab hf_loop_shape [OF assms, of "nat retries" e "text" a b tr]
    by (simp add: summarize_with_hf_def)
qed

lemma summarize_with_gemini_shape:
  "\<exists>r evs. summarize_with_gemini e text len tr = (Inr r, tr @ evs) \<and> list_all gemini_event evs \<and>
     (r = (PNone, None) \<or> (\<exists>t. r = (PStr t, Some gemini)))"
  by (auto simp: summarize_with_gemini_def gemini_try_def Let_def split: option.splits sum.splits)

lemma summarize_text_auto:
  assumes "model_choice \<noteq> hugging_face" and "model_choice \<noteq> gemini"
    and "summarize_with_hf e text len 3 2 tr = (Inr r, tr1)"
  shows "summarize_text e text model_choice len tr =
           (case (if fst r = PNone then summarize_with_gemini e text len tr1 else (Inr r, tr1)) of
              (Inl x, tr2) \<Rightarrow> (Inl x, tr2)
            | (Inr r2, tr2) \<Rightarrow>
                if fst r2 = PNone then (Inr (failure msg_both_failed None), tr2)
                else (Inr (success r2), tr2))"
  using assms by (simp add: summarize_text_def)

lemma five_words: "split (asc ''a b c d e'') = [[97], [98], [99], [100], [101]]"
  by (simp add: split_def asc_Cons asc_Nil isspace_def)

lemma hf_event_adapter: "list_all hf_event evs \<Longrightarrow> list_all adapter_event evs"
  by (simp add: list_all_iff adapter_event_def)

lemma gemini_event_adapter: "list_all gemini_event evs \<Longrightarrow> list_all adapter_event evs"
  by (simp add: list_all_iff adapter_event_def)

lemma summarize_text_shape:
  "\<exists>r evs. summarize_text e text model_choice len tr = (Inr r, tr @ evs) \<and>
     list_all adapter_event evs \<and>
     (succeeded r \<longrightarrow>
        (used_model r = Some hugging_face \<or> used_model r = Some gemini) \<and> summary r \<noteq> PNone) \<and>
     (\<not> succeeded r \<longrightarrow>
        (used_model r = None \<or> used_model r = Some model_choice) \<and>
        (summary r = PStr msg_hf_failed \<or> summary r = PStr msg_gemini_failed \<or>
         summary r = PStr msg_both_failed))"
proof -
  obtain hf evs1 where h: "summarize_with_hf e text len 3 2 tr = (Inr hf, tr @ evs1)"
      "list_all hf_event evs1" "hf = (PNone, None) \<or> snd hf = Some hugging_face"
    using summarize_with_hf_shape [of 2 e "text" len 3 tr] by auto
  obtain g evs2 where g: "summarize_with_gemini e text len tr = (Inr g, tr @ evs2)"
      "list_all gemini_event evs2" "g = (PNone, None) \<or> (\<exists>t. g = (PStr t, Some gemini))"
    using summarize_with_gemini_shape [of e "text" len tr] by blast
  obtain g' evs3 where g': "summarize_with_gemini e text len (tr @ evs1) = (Inr g', (tr @ evs1) @ evs3)"
      "list_all gemini_event evs3" "g' = (PNone, None) \<or> (\<exists>t. g' = (PStr t, Some gemini))"
    using summarize_with_gemini_shape [of e "text" len "tr @ evs1"] by blast
  note ad = hf_event_adapter [OF h(2)] gemini_event_adapter [OF g(2)] gemini_event_adapter [OF g'(2)]
  consider (hf) "model_choice = hugging_face"
    | (gem) "model_choice \<noteq> hugging_face" "model_choice = gemini"
    | (auto) "model_choice \<noteq> hugging_face" "model_choice \<noteq> gemini"
    by blast
  then show ?thesis
  proof cases
    case hf
    then show ?thesis
      using h ad(1) by (auto simp: summarize_text_def failure_def success_def)
  next
    case gem
    then show ?thesis
      using g ad(2) by (auto simp: summarize_text_def failure_def success_def)
  next
    case auto
    have ev: "list_all adapter_event (evs1 @ evs3)"
      using ad by simp
    show ?thesis
    proof (cases "fst hf = PNone")
      case True
      then show ?thesis
        using summarize_text_auto [OF auto h(1)] g' ev
        by (auto simp: failure_def success_def)
    next
      case False
      then show ?thesis
        using summarize_text_auto [OF auto h(1)] h(3) ad(1)
        by (auto simp: failure_def success_def)
    qed
  qed
qed

lemma hf_empty_run:
  "summarize_text hf_empty (asc ''a b c d e'') hugging_face (asc ''small'') [] =
     (Inr \<lparr>summary = PStr [], used_model = Some hugging_face, succeeded = True\<rparr>,
      [HfPost (asc ''a b c d e'') 20 80])"
  by (simp add: summarize_text_def summarize_with_hf_def five_words min_max_len_def
      numeral_3_eq_3 hf_attempt_def hf_try_def hf_empty_def offline_def hf_reply_def success_def)

lemma offline_hf_run:
  "summarize_text offline (asc ''a'') hugging_face (asc ''small'') [] =
     (Inr \<lparr>summary = PStr msg_hf_failed, used_model = Some hugging_face, succeeded = False\<rparr>, [])"
  by (simp add: summarize_text_def summarize_with_hf_def split_a failure_def)

lemma hf_try_det:
  assumes "deterministic e" and "0 \<le> d" and "d \<le> 4294967"
  shows "hf_try e text a b d tr =
           (fst (hf_try e text a b d []), tr @ snd (hf_try e text a b d []))"
proof -
  have "requests_post e tr text a b = requests_post e [] text a b"
    using assms unfolding deterministic_def by blast
  then show ?thesis
    by (simp add: hf_try_def sleep_ok [OF assms(2,3)] Let_def split: sum.splits)
qed

lemma hf_attempt_det:
  assumes "deterministic e" and "0 \<le> d" and "d \<le> 4294967"
  shows "hf_attempt e text a b d tr =
           (fst (hf_attempt e text a b d []), tr @ snd (hf_attempt e text a b d []))"
proof -
  obtain r evs where r: "hf_try e text a b d [] = (r, evs)"
    by (cases "hf_try e text a b d []")
  have "hf_try e text a b d tr = (r, tr @ evs)"
    using hf_try_det [OF assms, of "text" a b tr] r by simp
  with r show ?thesis
    by (simp add: hf_attempt_def sleep_ok [OF assms(2,3)] split: sum.splits)
qed

lemma hf_loop_det:
  assumes "deterministic e" and "0 \<le> d" and "d \<le> 4294967"
  shows "hf_loop n e text a b d tr =
           (fst (hf_loop n e text a b d []), tr @ snd (hf_loop n e text a b d []))"
proof (induction n arbitrary: tr)
  case 0
  show ?case by simp
next
  case (Suc n)
  obtain r evs where r: "hf_attempt e text a b d [] = (r, evs)"
    by (cases "hf_attempt e text a b d []")
  have at: "hf_attempt e text a b d tr = (r, tr @ evs)"
    using hf_attempt_det [OF assms, of "text" a b tr] r by simp
  show ?case
  proof (cases r)
    case (Inl x)
    with r at show ?thesis by simp
  next
    case (Inr y)
    show ?thesis
    proof (cases y)
      case None
      have "hf_loop (Suc n) e text a b d tr = hf_loop n e text a b d (tr @ evs)"
        using at Inr None by simp
      moreover have "hf_loop (Suc n) e text a b d [] = hf_loop n e text a b d evs"
        using r Inr None by simp
      ultimately show ?thesis
        using Suc.IH [of "tr @ evs"] Suc.IH [of evs] by simp
    next
      case (Some z)
      with r at Inr show ?thesis by simp
    qed
  qed
qed

lemma summarize_with_hf_det:
  assumes "deterministic e" and "0 \<le> d" and "d \<le> 4294967"
  shows "summarize_with_hf e text len k d tr =
           (fst (summarize_with_hf e text len k d []), tr @ snd (summarize_with_hf e text len k d []))"
proof (cases "List.length (split text) < 5")
  case True
  then show ?thesis by (simp add: summarize_with_hf_def)
next
  case False
  obtain a b where ab: "min_max_len len = (a, b)" by (cases "min_max_len len")
  show ?thesis
    using False ab hf_loop_det [OF assms, of "nat k" "text" a b tr]
    by (simp add: summarize_with_hf_def)
qed

lemma summarize_with_gemini_det:
  assumes "deterministic e"
  shows "summarize_with_gemini e text len tr =
           (fst (summarize_with_gemini e text len []), tr @ snd (summarize_with_gemini e text len []))"
proof -
  have "generate_content e tr p = generate_content e [] p" for p
    using assms unfolding deterministic_def by blast
  then show ?thesis
    by (simp add: summarize_with_gemini_def gemini_try_def Let_def split: option.splits sum.splits)
qed

lemma summarize_text_det:
  assumes "deterministic e"
  shows "summarize_text e text model_choice len tr =
           (fst (summarize_text e text model_choice len []),
            tr @ snd (summarize_text e text model_choice len []))"
proof -
  obtain hf evs1 where h: "summarize_with_hf e text len 3 2 [] = (Inr hf, evs1)"
    using summarize_with_hf_shape [of 2 e "text" len 3 "[]"] by auto
  have h': "summarize_with_hf e text len 3 2 tr = (Inr hf, tr @ evs1)"
    using summarize_with_hf_det [OF assms, of 2 "text" len 3 tr] h by simp
  obtain g evs2 where g: "summarize_with_gemini e text len [] = (Inr g, evs2)"
    using summarize_with_gemini_shape [of e "text" len "[]"] by auto
  have g': "summarize_with_gemini e text len tr0 = (Inr g, tr0 @ evs2)" for tr0
    using summarize_with_gemini_det [OF assms, of "text" len tr0] g by simp
  show ?thesis
    using h h' g g' [of tr] g' [of evs1] g' [of "tr @ evs1"]
    by (simp add: summarize_text_def)
qed





lemma no_speech_distinct:
  "\<not> prefix (asc ''Deepgram error'') msg_no_speech"
  "msg_no_speech \<noteq> msg_dg_not_configured"
  "msg_no_speech \<noteq> msg_audio_not_found"
  by (simp_all add: msg_no_speech_def msg_dg_not_configured_def msg_audio_not_found_def
      asc_Cons asc_Nil)

lemma unat_byte: "n < 256 \<Longrightarrow> unat (of_nat n :: 8 word) = n"
  by (simp add: unat_of_nat)

lemma decode_ascii:
  assumes "c < 128"
  shows "utf8_decode (of_nat c # rest) = map_option ((#) c) (utf8_decode rest)"
proof -
  have "unat (of_nat c :: 8 word) = c"
    by (rule unat_byte) (use assms in simp)
  with assms show ?thesis by simp
qed

lemma cont_byte:
  assumes "k < 64"
  shows "is_cont (of_nat (128 + k))" and "cont_bits (of_nat (128 + k)) = k"
proof -
  have "unat (of_nat (128 + k) :: 8 word) = 128 + k"
    by (rule unat_byte) (use assms in simp)
  with assms show "is_cont (of_nat (128 + k))" and "cont_bits (of_nat (128 + k)) = k"
    by (simp_all add: is_cont_def cont_bits_def del: of_nat_add of_nat_numeral)
qed

lemma decode_two_bytes:
  assumes "2 \<le> q" and "q < 32" and "k < 64" and "q * 64 + k = c"
  shows "utf8_decode (of_nat (192 + q) # of_nat (128 + k) # rest) =
           map_option ((#) c) (utf8_decode rest)"
proof -
  have b0: "unat (of_nat (192 + q) :: 8 word) = 192 + q"
    by (rule unat_byte) (use assms in simp)
  show ?thesis
    using assms by (simp add: b0 cont_byte del: of_nat_add of_nat_numeral)
qed

lemma decode_three_bytes:
  assumes "q < 16" and "k1 < 64" and "k2 < 64" and "q * 4096 + k1 * 64 + k2 = c"
    and "2048 \<le> c" and "\<not> (55296 \<le> c \<and> c < 57344)"
  shows "utf8_decode (of_nat (224 + q) # of_nat (128 + k1) # of_nat (128 + k2) # rest) =
           map_option ((#) c) (utf8_decode rest)"
proof -
  have b0: "unat (of_nat (224 + q) :: 8 word) = 224 + q"
    by (rule unat_byte) (use assms in simp)
  show ?thesis
    using assms by (simp add: b0 cont_byte del: of_nat_add of_nat_numeral)
qed

lemma decode_four_bytes:
  assumes "q < 5" and "k1 < 64" and "k2 < 64" and "k3 < 64"
    and "q * 262144 + k1 * 4096 + k2 * 64 + k3 = c"
    and "65536 \<le> c" and "c < 1114112"
  shows "utf8_decode (of_nat (240 + q) # of_nat (128 + k1) # of_nat (128 + k2) #
                      of_nat (128 + k3) # rest) =
           map_option ((#) c) (utf8_decode rest)"
proof -
  have b0: "unat (of_nat (240 + q) :: 8 word) = 240 + q"
    by (rule unat_byte) (use assms in simp)
  show ?thesis
    using assms by (simp add: b0 cont_byte del: of_nat_add of_nat_numeral)
qed

lemma split_64: "(c::nat) mod 4096 = c div 64 mod 64 * 64 + c mod 64"
  using mod_mult2_eq [of c 64 64] by (simp add: mult.commute)

lemma split_4096: "(c::nat) mod 262144 = c div 4096 mod 64 * 4096 + c mod 4096"
  using mod_mult2_eq [of c 4096 64] by (simp add: mult.commute)

lemma digits_three: "(c::nat) div 4096 * 4096 + c div 64 mod 64 * 64 + c mod 64 = c"
proof -
  have "c div 4096 * 4096 + c div 64 mod 64 * 64 + c mod 64 =
          c div 4096 * 4096 + (c div 64 mod 64 * 64 + c mod 64)"
    by (simp only: add.assoc)
  also have "\<dots> = c div 4096 * 4096 + c mod 4096"
    by (simp only: split_64)
  also have "\<dots> = c"
    by (rule div_mult_mod_eq)
  finally show ?thesis .
qed

lemma digits_four:
  "(c::nat) div 262144 * 262144 + c div 4096 mod 64 * 4096 + c div 64 mod 64 * 64 + c mod 64 = c"
proof -
  have "c div 262144 * 262144 + c div 4096 mod 64 * 4096 + c div 64 mod 64 * 64 + c mod 64 =
          c div 262144 * 262144 + (c div 4096 mod 64 * 4096 + (c div 64 mod 64 * 64 + c mod 64))"
    by (simp only: add.assoc)
  also have "\<dots> = c div 262144 * 262144 + (c div 4096 mod 64 * 4096 + c mod 4096)"
    by (simp only: split_64)
  also have "\<dots> = c div 262144 * 262144 + c mod 262144"
    by (simp only: split_4096)
  also have "\<dots> = c"
    by (rule div_mult_mod_eq)
  finally show ?thesis .
qed

lemma decode_two:
  assumes "128 \<le> c" and "c < 2048"
  shows "utf8_decode (of_nat (192 + c div 64) # of_nat (128 + c mod 64) # rest) =
           map_option ((#) c) (utf8_decode rest)"
proof (rule decode_two_bytes)
  show "2 \<le> c div 64"
    using assms(1) div_le_mono [of 128 c 64] by simp
  show "c div 64 < 32"
    by (rule less_mult_imp_div_less) (use assms(2) in simp)
  show "c mod 64 < 64"
    by simp
  show "c div 64 * 64 + c mod 64 = c"
    by (rule div_mult_mod_eq)
qed

lemma decode_three:
  assumes "2048 \<le> c" and "c < 65536" and "\<not> (55296 \<le> c \<and> c < 57344)"
  shows "utf8_decode (of_nat (224 + c div 4096) # of_nat (128 + c div 64 mod 64) #
                      of_nat (128 + c mod 64) # rest) =
           map_option ((#) c) (utf8_decode rest)"
proof (rule decode_three_bytes)
  show "c div 4096 < 16"
    by (rule less_mult_imp_div_less) (use assms(2) in simp)
  show "c div 64 mod 64 < 64" and "c mod 64 < 64"
    by simp_all
  show "c div 4096 * 4096 + c div 64 mod 64 * 64 + c mod 64 = c"
    by (rule digits_three)
  show "2048 \<le> c" and "\<not> (55296 \<le> c \<and> c < 57344)"
    by (rule assms)+
qed

lemma decode_four:
  assumes "65536 \<le> c" and "c < 1114112"
  shows "utf8_decode (of_nat (240 + c div 262144) # of_nat (128 + c div 4096 mod 64) #
                      of_nat (128 + c div 64 mod 64) # of_nat (128 + c mod 64) # rest) =
           map_option ((#) c) (utf8_decode rest)"
proof (rule decode_four_bytes)
  show "c div 262144 < 5"
    by (rule less_mult_imp_div_less) (use assms(2) in simp)
  show "c div 4096 mod 64 < 64" and "c div 64 mod 64 < 64" and "c mod 64 < 64"
    by simp_all
  show "c div 262144 * 262144 + c div 4096 mod 64 * 4096 + c div 64 mod 64 * 64 + c mod 64 = c"
    by (rule digits_four)
  show "65536 \<le> c" and "c < 1114112"
    by (rule assms)+
qed

lemma decode_encode_cp:
  assumes "utf8_encode_cp c = Some bs"
  shows "utf8_decode (bs @ rest) = map_option ((#) c) (utf8_decode rest)"
proof -
  consider (one) "c < 128" | (two) "128 \<le> c" "c < 2048"
    | (three) "2048 \<le> c" "c < 65536" "\<not> (55296 \<le> c \<and> c < 57344)"
    | (four) "65536 \<le> c" "c < 1114112"
    using assms by (auto simp: utf8_encode_cp_def split: if_splits)
  then show ?thesis
  proof cases
    case one
    with assms have "bs = [of_nat c]" by (simp add: utf8_encode_cp_def)
    with one show ?thesis using decode_ascii [of c rest] by simp
  next
    case two
    with assms have "bs = [of_nat (192 + c div 64), of_nat (128 + c mod 64)]"
      by (simp add: utf8_encode_cp_def)
    with two show ?thesis using decode_two [of c rest] by simp
  next
    case three
    with assms have "bs = [of_nat (224 + c div 4096), of_nat (128 + c div 64 mod 64),
        of_nat (128 + c mod 64)]"
      by (auto simp: utf8_encode_cp_def split: if_splits)
    with three show ?thesis using decode_three [of c rest] by simp
  next
    case four
    with assms have "bs = [of_nat (240 + c div 262144), of_nat (128 + c div 4096 mod 64),
        of_nat (128 + c div 64 mod 64), of_nat (128 + c mod 64)]"
      by (simp add: utf8_encode_cp_def)
    with four show ?thesis using decode_four [of c rest] by simp
  qed
qed

lemma decode_encode:
  "utf8_encode s = Some content \<Longrightarrow> utf8_decode content = Some s"
proof (induction s arbitrary: content)
  case Nil
  then show ?case by simp
next
  case (Cons c cs)
  then obtain bs rest where p: "utf8_encode_cp c = Some bs" "utf8_encode cs = Some rest"
      "content = bs @ rest"
    by (auto split: option.splits)
  then show ?case
    using decode_encode_cp [OF p(1), of rest] Cons.IH [OF p(2)] by simp
qed

lemma universal_newlines_id:
  "13 \<notin> set s \<Longrightarrow> universal_newlines False s = s"
  by (induction s) auto

lemma enc2: "utf8_encode [10060, 111, 107] = Some [226, 157, 140, 111, 107]"
  by (simp add: utf8_encode_cp_def)

lemma gemini_only_hf_fails:
  "summarize_with_hf gemini_only (asc ''a b c d e'') (asc ''small'') 3 2 [] =
     (Inr (PNone, None),
      [HfPost (asc ''a b c d e'') 20 80, Sleep 2, HfPost (asc ''a b c d e'') 20 80, Sleep 2,
       HfPost (asc ''a b c d e'') 20 80, Sleep 2])"
  by (simp add: summarize_with_hf_def five_words min_max_len_def numeral_3_eq_3
      hf_attempt_def hf_try_def gemini_only_def offline_def sleep_def)

lemma gemini_only_gemini_answers:
  "summarize_with_gemini gemini_only (asc ''a b c d e'') (asc ''small'') tr =
     (Inr (PStr (asc ''ok''), Some gemini),
      tr @ [GeminiGenerate (gemini_prompt (asc ''a b c d e'') (asc ''small''))])"
  by (simp add: summarize_with_gemini_def gemini_try_def gemini_only_def offline_def)

lemma hf_ok_hf_answers:
  "summarize_with_hf hf_ok (asc ''a b c d e'') (asc ''small'') 3 2 [] =
     (Inr (PStr (asc ''ok''), Some hugging_face), [HfPost (asc ''a b c d e'') 20 80])"
  by (simp add: summarize_with_hf_def five_words min_max_len_def numeral_3_eq_3
      hf_attempt_def hf_try_def hf_ok_def gemini_only_def offline_def hf_reply_def)

section \<open>The claims\<close>

text \<open>
  C1 (amended). A text of fewer than five words never reaches the Hugging Face service:
  the adapter returns \<^verbatim>\<open>(None, None)\<close> and leaves the trace as it was, so the preference
  Hugging Face gives the failure naming Hugging Face without any network call. With
  any preference other than the two provider names (Auto) the Gemini adapter is then
  called with the text, and its outcome alone decides the result: its summary, or the
  failure ``both failed'' with no provider. There is no ``too short'' message.
\<close>

theorem short_text_skips_hf_only:
  assumes "List.length (split text) < 5"
  shows "summarize_with_hf e text len retries delay tr = (Inr (PNone, None), tr) \<and>
         summarize_text e text hugging_face len tr =
           (Inr (failure msg_hf_failed (Some hugging_face)), tr) \<and>
         (model_choice \<noteq> hugging_face \<and> model_choice \<noteq> gemini \<longrightarrow>
            summarize_text e text model_choice len tr =
              (case summarize_with_gemini e text len tr of
                 (Inl x, tr1) \<Rightarrow> (Inl x, tr1)
               | (Inr r, tr1) \<Rightarrow>
                   if fst r = PNone then (Inr (failure msg_both_failed None), tr1)
                   else (Inr (success r), tr1)))"
proof -
  have hf: "summarize_with_hf e text len k d tr = (Inr (PNone, None), tr)" for k d
    using assms by (simp add: summarize_with_hf_def)
  have "summarize_text e text hugging_face len tr =
          (Inr (failure msg_hf_failed (Some hugging_face)), tr)"
    by (simp add: summarize_text_def hf)
  moreover have "summarize_text e text model_choice len tr =
      (case summarize_with_gemini e text len tr of
         (Inl x, tr1) \<Rightarrow> (Inl x, tr1)
       | (Inr r, tr1) \<Rightarrow>
           if fst r = PNone then (Inr (failure msg_both_failed None), tr1)
           else (Inr (success r), tr1))"
    if "model_choice \<noteq> hugging_face" "model_choice \<noteq> gemini"
    using summarize_text_auto [OF that hf] by simp
  ultimately show ?thesis using hf by blast
qed

theorem short_text_auto_counterexample:
  "List.length (split (asc ''a'')) < 5 \<and>
   summarize_text gemini_only (asc ''a'') (asc ''Auto'') (asc ''medium'') [] =
     (Inr \<lparr>summary = PStr (asc ''ok''), used_model = Some gemini, succeeded = True\<rparr>,
      [GeminiGenerate (gemini_prompt (asc ''a'') (asc ''medium''))])"
proof -
  have "summarize_with_gemini gemini_only (asc ''a'') (asc ''medium'') [] =
          (Inr (PStr (asc ''ok''), Some gemini),
           [GeminiGenerate (gemini_prompt (asc ''a'') (asc ''medium''))])"
    by (simp add: summarize_with_gemini_def gemini_try_def gemini_only_def offline_def)
  moreover have "summarize_with_hf gemini_only (asc ''a'') (asc ''medium'') 3 2 [] =
          (Inr (PNone, None), [])"
    by (simp add: summarize_with_hf_def split_a)
  ultimately show ?thesis
    using summarize_text_auto [OF names_differ(2,3), of gemini_only "asc ''a''" "asc ''medium''" "[]"]
    by (simp add: split_a success_def)
qed

theorem short_text_skips_hf_only_witness:
  "List.length (split (asc ''a'')) < 5 \<and>
   summarize_with_hf offline (asc ''a'') (asc ''medium'') 3 2 [] = (Inr (PNone, None), []) \<and>
   summarize_text offline (asc ''a'') hugging_face (asc ''medium'') [] =
     (Inr (failure msg_hf_failed (Some hugging_face)), []) \<and>
   summarize_text offline (asc ''a'') (asc ''Auto'') (asc ''medium'') [] =
     (Inr (failure msg_both_failed None),
      [GeminiGenerate (gemini_prompt (asc ''a'') (asc ''medium''))])"
proof -
  have short: "List.length (split (asc ''a'')) < 5"
    by (simp add: split_a)
  have g: "summarize_with_gemini offline (asc ''a'') (asc ''medium'') [] =
          (Inr (PNone, None), [GeminiGenerate (gemini_prompt (asc ''a'') (asc ''medium''))])"
    by (simp add: summarize_with_gemini_def gemini_try_def offline_def)
  show ?thesis
    using short_text_skips_hf_only [OF short, of offline "asc ''medium''" 3 2 "[]" "asc ''Auto''"]
      names_differ short g by simp
qed




text \<open>
  C3. With the preference Auto (any choice that is not one of the two provider names)
  \<^verbatim>\<open>summarize_text\<close> runs the Hugging Face adapter first, on the trace it was given. When
  that adapter returns a summary, the Gemini adapter is not invoked: nothing more is
  added to the trace and the result is the Hugging Face one. When it returns no
  summary, the Gemini adapter is run next, on the trace the Hugging Face adapter left:
  what it adds to the trace comes after the Hugging Face events, and is its one call
  of the service unless its set-up raised; the result is the Gemini one, or the
  failure ``both failed''.
\<close>

theorem auto_tries_hf_first_and_short_circuits:
  assumes "model_choice \<noteq> hugging_face" and "model_choice \<noteq> gemini"
  shows "\<exists>hf r evs1 evs2.
           summarize_with_hf e text len 3 2 tr = (Inr hf, tr @ evs1) \<and>
           summarize_text e text model_choice len tr = (Inr r, tr @ evs1 @ evs2) \<and>
           list_all hf_event evs1 \<and> list_all gemini_event evs2 \<and>
           (fst hf \<noteq> PNone \<longrightarrow> evs2 = [] \<and> r = success hf) \<and>
           (fst hf = PNone \<longrightarrow>
              (\<exists>g. summarize_with_gemini e text len (tr @ evs1) = (Inr g, tr @ evs1 @ evs2) \<and>
                   r = (if fst g = PNone then failure msg_both_failed None else success g)) \<and>
              (genai_setup e = None \<longrightarrow> evs2 = [GeminiGenerate (gemini_prompt text len)]))"
proof -
  obtain hf evs1 where h: "summarize_with_hf e text len 3 2 tr = (Inr hf, tr @ evs1)"
      "list_all hf_event evs1"
    using summarize_with_hf_shape [of 2 e "text" len 3 tr] by auto
  note auto = summarize_text_auto [OF assms h(1)]
  show ?thesis
  proof (cases "fst hf = PNone")
    case True
    obtain g evs2 where g: "summarize_with_gemini e text len (tr @ evs1) = (Inr g, (tr @ evs1) @ evs2)"
        "list_all gemini_event evs2"
      using summarize_with_gemini_shape [of e "text" len "tr @ evs1"] by blast
    let ?r = "if fst g = PNone then failure msg_both_failed None else success g"
    have r: "summarize_text e text model_choice len tr = (Inr ?r, tr @ evs1 @ evs2)"
      using auto True g(1) by simp
    have one: "evs2 = [GeminiGenerate (gemini_prompt text len)]" if "genai_setup e = None"
      using g(1) that
      by (auto simp: summarize_with_gemini_def gemini_try_def Let_def split: sum.splits)
    have ran: "\<exists>g'. summarize_with_gemini e text len (tr @ evs1) = (Inr g', tr @ evs1 @ evs2) \<and>
        ?r = (if fst g' = PNone then failure msg_both_failed None else success g')"
      using g(1) by (intro exI [of _ g]) simp
    have main: "summarize_with_hf e text len 3 2 tr = (Inr hf, tr @ evs1) \<and>
        summarize_text e text model_choice len tr = (Inr ?r, tr @ evs1 @ evs2) \<and>
        list_all hf_event evs1 \<and> list_all gemini_event evs2 \<and>
        (fst hf \<noteq> PNone \<longrightarrow> evs2 = [] \<and> ?r = success hf) \<and>
        (fst hf = PNone \<longrightarrow>
           (\<exists>g'. summarize_with_gemini e text len (tr @ evs1) = (Inr g', tr @ evs1 @ evs2) \<and>
                 ?r = (if fst g' = PNone then failure msg_both_failed None else success g')) \<and>
           (genai_setup e = None \<longrightarrow> evs2 = [GeminiGenerate (gemini_prompt text len)]))"
      using h r g(2) True ran one by blast
    show ?thesis
      by (rule exI [of _ hf], rule exI [of _ ?r], rule exI [of _ evs1], rule exI [of _ evs2])
        (rule main)
  next
    case False
    have "summarize_text e text model_choice len tr = (Inr (success hf), tr @ evs1 @ [])"
      using auto False by simp
    moreover have "list_all gemini_event []" by simp
    ultimately show ?thesis using h False by blast
  qed
qed

theorem auto_tries_hf_first_and_short_circuits_witness:
  "asc ''Auto'' \<noteq> hugging_face \<and> asc ''Auto'' \<noteq> gemini \<and>
   summarize_text hf_ok (asc ''a b c d e'') (asc ''Auto'') (asc ''small'') [] =
     (Inr \<lparr>summary = PStr (asc ''ok''), used_model = Some hugging_face, succeeded = True\<rparr>,
      [HfPost (asc ''a b c d e'') 20 80]) \<and>
   genai_setup gemini_only = None \<and>
   summarize_text gemini_only (asc ''a b c d e'') (asc ''Auto'') (asc ''small'') [] =
     (Inr \<lparr>summary = PStr (asc ''ok''), used_model = Some gemini, succeeded = True\<rparr>,
      [HfPost (asc ''a b c d e'') 20 80, Sleep 2, HfPost (asc ''a b c d e'') 20 80, Sleep 2,
       HfPost (asc ''a b c d e'') 20 80, Sleep 2,
       GeminiGenerate (gemini_prompt (asc ''a b c d e'') (asc ''small''))])"
proof -
  have first: "summarize_text hf_ok (asc ''a b c d e'') (asc ''Auto'') (asc ''small'') [] =
     (Inr \<lparr>summary = PStr (asc ''ok''), used_model = Some hugging_face, succeeded = True\<rparr>,
      [HfPost (asc ''a b c d e'') 20 80])"
    using auto_tries_hf_first_and_short_circuits
      [OF names_differ(2,3), of hf_ok "asc ''a b c d e''" "asc ''small''" "[]"] hf_ok_hf_answers
    by (auto simp: success_def)
  have ready: "genai_setup gemini_only = None"
    by (simp add: gemini_only_def offline_def)
  have second: "summarize_text gemini_only (asc ''a b c d e'') (asc ''Auto'') (asc ''small'') [] =
     (Inr \<lparr>summary = PStr (asc ''ok''), used_model = Some gemini, succeeded = True\<rparr>,
      [HfPost (asc ''a b c d e'') 20 80, Sleep 2, HfPost (asc ''a b c d e'') 20 80, Sleep 2,
       HfPost (asc ''a b c d e'') 20 80, Sleep 2,
       GeminiGenerate (gemini_prompt (asc ''a b c d e'') (asc ''small''))])"
    using auto_tries_hf_first_and_short_circuits
      [OF names_differ(2,3), of gemini_only "asc ''a b c d e''" "asc ''small''" "[]"]
      gemini_only_hf_fails gemini_only_gemini_answers ready
    by (auto simp: success_def)
  show ?thesis
    using names_differ(2,3) first ready second by blast
qed

text \<open>
  C4. With the preference Auto, when the Hugging Face adapter fails and the Gemini
  adapter returns a summary, the result carries that summary and names Gemini as the
  model used; when both fail, the result is the failure ``both failed'' with no model.
\<close>

theorem auto_falls_back_to_gemini:
  assumes "model_choice \<noteq> hugging_face" and "model_choice \<noteq> gemini"
    and "summarize_with_hf e text len 3 2 tr = (Inr (PNone, m), tr1)"
    and "summarize_with_gemini e text len tr1 = (Inr (s, g), tr2)"
  shows "(s \<noteq> PNone \<longrightarrow>
            summarize_text e text model_choice len tr =
              (Inr \<lparr>summary = s, used_model = Some gemini, succeeded = True\<rparr>, tr2)) \<and>
         (s = PNone \<longrightarrow>
            summarize_text e text model_choice len tr =
              (Inr \<lparr>summary = PStr msg_both_failed, used_model = None, succeeded = False\<rparr>, tr2))"
proof -
  have g: "s \<noteq> PNone \<Longrightarrow> g = Some gemini"
    using summarize_with_gemini_shape [of e "text" len tr1] assms(4) by auto
  show ?thesis
    using summarize_text_auto [OF assms(1,2,3)] assms(4) g
    by (simp add: success_def failure_def)
qed

theorem auto_falls_back_to_gemini_witness:
  "summarize_text gemini_only (asc ''a b c d e'') (asc ''Auto'') (asc ''small'') [] =
     (Inr \<lparr>summary = PStr (asc ''ok''), used_model = Some gemini, succeeded = True\<rparr>,
      [HfPost (asc ''a b c d e'') 20 80, Sleep 2, HfPost (asc ''a b c d e'') 20 80, Sleep 2,
       HfPost (asc ''a b c d e'') 20 80, Sleep 2,
       GeminiGenerate (gemini_prompt (asc ''a b c d e'') (asc ''small''))]) \<and>
   summarize_text offline (asc ''a b c d e'') (asc ''Auto'') (asc ''small'') [] =
     (Inr \<lparr>summary = PStr msg_both_failed, used_model = None, succeeded = False\<rparr>,
      [HfPost (asc ''a b c d e'') 20 80, Sleep 2, HfPost (asc ''a b c d e'') 20 80, Sleep 2,
       HfPost (asc ''a b c d e'') 20 80, Sleep 2,
       GeminiGenerate (gemini_prompt (asc ''a b c d e'') (asc ''small''))])"
proof -
  let ?t = "asc ''a b c d e''"
  let ?tr1 = "[HfPost ?t 20 80, Sleep 2, HfPost ?t 20 80, Sleep 2, HfPost ?t 20 80, Sleep 2]"
  let ?tr2 = "?tr1 @ [GeminiGenerate (gemini_prompt ?t (asc ''small''))]"
  have hf1: "summarize_with_hf gemini_only ?t (asc ''small'') 3 2 [] = (Inr (PNone, None), ?tr1)"
    by (simp add: summarize_with_hf_def five_words min_max_len_def numeral_3_eq_3
        hf_attempt_def hf_try_def gemini_only_def offline_def sleep_def)
  have hf2: "summarize_with_hf offline ?t (asc ''small'') 3 2 [] = (Inr (PNone, None), ?tr1)"
    by (simp add: summarize_with_hf_def five_words min_max_len_def numeral_3_eq_3
        hf_attempt_def hf_try_def offline_def sleep_def)
  have g1: "summarize_with_gemini gemini_only ?t (asc ''small'') ?tr1 =
      (Inr (PStr (asc ''ok''), Some gemini), ?tr2)"
    by (simp add: summarize_with_gemini_def gemini_try_def gemini_only_def offline_def)
  have g2: "summarize_with_gemini offline ?t (asc ''small'') ?tr1 = (Inr (PNone, None), ?tr2)"
    by (simp add: summarize_with_gemini_def gemini_try_def offline_def)
  show ?thesis
    using auto_falls_back_to_gemini [OF names_differ(2,3) hf1 g1]
      auto_falls_back_to_gemini [OF names_differ(2,3) hf2 g2]
    by simp
qed

text \<open>
  C5 (amended). \<^verbatim>\<open>summarize_text\<close> always returns a result. On success the model used is
  set, to Hugging Face or to Gemini, and the summary is not \<^verbatim>\<open>None\<close> (it may be the empty
  string). On failure the model used is unset or the provider that was chosen, and the
  text is one of the three fixed error messages.
\<close>

theorem result_invariant:
  "\<exists>r tr1. summarize_text e text model_choice len tr = (Inr r, tr1) \<and>
     (succeeded r \<longrightarrow>
        (used_model r = Some hugging_face \<or> used_model r = Some gemini) \<and> summary r \<noteq> PNone) \<and>
     (\<not> succeeded r \<longrightarrow>
        (used_model r = None \<or> used_model r = Some model_choice) \<and>
        (summary r = PStr msg_hf_failed \<or> summary r = PStr msg_gemini_failed \<or>
         summary r = PStr msg_both_failed))"
  using summarize_text_shape [of e "text" model_choice len tr] by blast

theorem success_with_empty_text_counterexample:
  "summarize_text hf_empty (asc ''a b c d e'') hugging_face (asc ''small'') [] =
     (Inr \<lparr>summary = PStr [], used_model = Some hugging_face, succeeded = True\<rparr>,
      [HfPost (asc ''a b c d e'') 20 80])"
  by (rule hf_empty_run)

theorem result_invariant_witness:
  "(\<exists>r tr1. summarize_text hf_empty (asc ''a b c d e'') hugging_face (asc ''small'') [] = (Inr r, tr1) \<and>
      succeeded r \<and> used_model r = Some hugging_face \<and> summary r \<noteq> PNone) \<and>
   (\<exists>r tr1. summarize_text offline (asc ''a'') hugging_face (asc ''small'') [] = (Inr r, tr1) \<and>
      \<not> succeeded r \<and> used_model r = Some hugging_face \<and> summary r = PStr msg_hf_failed)"
  using result_invariant [of hf_empty "asc ''a b c d e''" hugging_face "asc ''small''" "[]"]
    result_invariant [of offline "asc ''a''" hugging_face "asc ''small''" "[]"]
    hf_empty_run offline_hf_run
  by simp



text \<open>
  C7. An empty transcript is not an error and is not summarized. In the page,
  \<^verbatim>\<open>transcribe_audio\<close> returns the empty string itself, and the audio branch shows it and
  stops: the history is unchanged and no summarization event occurs. In the command
  line program a transcript that is empty after \<^verbatim>\<open>strip()\<close> gives the message
  ``No speech detected in audio.'', which is none of the error results of
  \<^verbatim>\<open>transcribe_and_summarize\<close>, and \<^verbatim>\<open>summarize_text\<close> is not called.
\<close>

theorem empty_transcript_skips_summarization:
  "(transcribe_file e tr (asc ''temp_audio'') = Inr [] \<longrightarrow>
      transcribe_audio e (asc ''temp_audio'') tr =
        (Inr [], tr @ [DeepgramTranscribe (asc ''temp_audio'')]) \<and>
      audio_branch e model_choice len history tr =
        (Inr history,
         tr @ [DeepgramTranscribe (asc ''temp_audio''), StSubheader (asc ''Transcript''),
               StWrite (PStr [])])) \<and>
   (dg_client e \<noteq> None \<and> path_exists e file_path \<and>
    transcribe_file e tr file_path = Inr transcript \<and> strip transcript = [] \<longrightarrow>
      transcribe_and_summarize e file_path len tr =
        (msg_no_speech, tr @ [DeepgramTranscribe file_path])) \<and>
   \<not> prefix (asc ''Deepgram error'') msg_no_speech \<and>
   msg_no_speech \<noteq> msg_dg_not_configured \<and> msg_no_speech \<noteq> msg_audio_not_found"
  using no_speech_distinct
  by (simp add: transcribe_audio_def audio_branch_def transcribe_and_summarize_def)

theorem empty_transcript_skips_summarization_witness:
  "transcribe_file silence [] (asc ''temp_audio'') = Inr [] \<and>
   audio_branch silence (asc ''Auto'') (asc ''small'') [] [] =
     (Inr [], [DeepgramTranscribe (asc ''temp_audio''), StSubheader (asc ''Transcript''),
               StWrite (PStr [])]) \<and>
   dg_client silence \<noteq> None \<and> path_exists silence (asc ''a.wav'') \<and>
   transcribe_file silence [] (asc ''a.wav'') = Inr [] \<and> strip [] = [] \<and>
   transcribe_and_summarize silence (asc ''a.wav'') (asc ''small'') [] =
     (msg_no_speech, [DeepgramTranscribe (asc ''a.wav'')])"
proof -
  have w: "transcribe_file silence [] p = Inr []" "dg_client silence \<noteq> None"
    "path_exists silence p" "strip [] = []" for p
    by (simp_all add: silence_def gemini_only_def offline_def strip_def)
  show ?thesis
    using empty_transcript_skips_summarization [of silence "[]" "asc ''Auto''" "asc ''small''" "[]"
        "asc ''a.wav''" "[]"] w
    by simp
qed

text \<open>
  C8 (amended). For the UTF-8 encoding of a string \<open>s\<close>, \<^verbatim>\<open>read_txt\<close> of the page returns
  exactly \<open>s\<close>. \<^verbatim>\<open>read_txt\<close> of the command line program, which opens the file in text
  mode, returns \<open>s\<close> with universal newlines applied, and so exactly \<open>s\<close> when \<open>s\<close> holds
  no carriage return.
\<close>

theorem txt_round_trip:
  assumes "utf8_encode s = Some content"
  shows "read_txt e content = Inr s \<and>
         (open_read e file_path = Inr content \<longrightarrow>
            cli_read_txt e file_path = universal_newlines False s \<and>
            (13 \<notin> set s \<longrightarrow> cli_read_txt e file_path = s))"
  using decode_encode [OF assms] universal_newlines_id [of s]
  by (simp add: read_txt_def cli_read_txt_def)

theorem cli_read_txt_newlines_counterexample:
  "utf8_encode [97, 13, 10, 98] = Some [97, 13, 10, 98] \<and>
   open_read crlf_file (asc ''notes.txt'') = Inr [97, 13, 10, 98] \<and>
   cli_read_txt crlf_file (asc ''notes.txt'') = [97, 10, 98]"
proof (intro conjI)
  show "utf8_encode [97, 13, 10, 98] = Some [97, 13, 10, 98]"
    by (simp add: utf8_encode_cp_def)
  show "open_read crlf_file (asc ''notes.txt'') = Inr [97, 13, 10, 98]"
    by (simp add: crlf_file_def offline_def)
  show "cli_read_txt crlf_file (asc ''notes.txt'') = [97, 10, 98]"
    by (simp add: cli_read_txt_def crlf_file_def offline_def)
qed

theorem txt_round_trip_witness:
  "utf8_encode [10060, 111, 107] = Some [226, 157, 140, 111, 107] \<and>
   read_txt utf8_file [226, 157, 140, 111, 107] = Inr [10060, 111, 107] \<and>
   open_read utf8_file (asc ''notes.txt'') = Inr [226, 157, 140, 111, 107] \<and>
   13 \<notin> set [10060, 111, 107::nat] \<and>
   cli_read_txt utf8_file (asc ''notes.txt'') = [10060, 111, 107]"
proof -
  have o: "open_read utf8_file (asc ''notes.txt'') = Inr [226, 157, 140, 111, 107]"
    by (simp add: utf8_file_def offline_def)
  have n: "13 \<notin> set [10060, 111, 107::nat]"
    by simp
  have "read_txt utf8_file [226, 157, 140, 111, 107] = Inr [10060, 111, 107] \<and>
        cli_read_txt utf8_file (asc ''notes.txt'') = [10060, 111, 107]"
    using txt_round_trip [OF enc2, of utf8_file "asc ''notes.txt''"] o n by blast
  with enc2 o n show ?thesis by blast
qed

text \<open>
  C9. With deterministic adapters, \<^verbatim>\<open>summarize_text\<close> is a function of its arguments:
  whatever happened before, the same text, choice and length give the same result, and
  the only effect is to extend the trace by the same events of the adapters, so a
  second call returns what the first returned.
\<close>

theorem summarize_text_repeatable:
  assumes "deterministic e"
  shows "\<exists>r evs. list_all adapter_event evs \<and>
           (\<forall>tr. summarize_text e text model_choice len tr = (Inr r, tr @ evs))"
proof -
  obtain r evs where r: "summarize_text e text model_choice len [] = (Inr r, [] @ evs)"
      "list_all adapter_event evs"
    using summarize_text_shape [of e "text" model_choice len "[]"] by blast
  have "summarize_text e text model_choice len tr = (Inr r, tr @ evs)" for tr
    using summarize_text_det [OF assms, of "text" model_choice len tr] r(1) by simp
  with r(2) show ?thesis by blast
qed

theorem summarize_text_repeatable_witness:
  "deterministic hf_ok \<and>
   (\<exists>r evs. list_all adapter_event evs \<and>
      (\<forall>tr. summarize_text hf_ok (asc ''a b c d e'') (asc ''Auto'') (asc ''small'') tr =
             (Inr r, tr @ evs)))"
proof -
  have d: "deterministic hf_ok"
    by (simp add: deterministic_def hf_ok_def gemini_only_def offline_def)
  show ?thesis
    using summarize_text_repeatable [OF d, of "asc ''a b c d e''" "asc ''Auto''" "asc ''small''"] d
    by simp
qed

text \<open>
  C10. In the command line program a read error is recognised by the substring
  \<^verbatim>\<open>error_mark\<close> alone: whenever the file exists, its extension is one of the three
  supported ones and the reader succeeds with a text that contains the mark anywhere,
  \<^verbatim>\<open>read_and_summarize_doc\<close> returns that text unchanged and makes no summarization call.
\<close>

theorem error_mark_in_document_is_returned:
  assumes "path_exists e file_path" and "sublist error_mark text"
    and "file_ext e file_path = asc ''.pdf'' \<and> pdf_pages e file_path = Inr pages \<and>
           text = concat pages \<or>
         file_ext e file_path = asc ''.docx'' \<and> docx_paragraphs e file_path = Inr paragraphs \<and>
           text = join [10] paragraphs \<or>
         file_ext e file_path = asc ''.txt'' \<and> open_read e file_path = Inr content \<and>
           utf8_decode content = Some s \<and> text = universal_newlines False s"
  shows "read_and_summarize_doc e file_path len tr = (text, tr)"
proof -
  have ne: "asc ''.docx'' \<noteq> asc ''.pdf''" "asc ''.txt'' \<noteq> asc ''.pdf''" "asc ''.txt'' \<noteq> asc ''.docx''"
    by (simp_all add: asc_Cons asc_Nil)
  from assms(3) show ?thesis
  proof (elim disjE conjE)
    assume "file_ext e file_path = asc ''.pdf''" "pdf_pages e file_path = Inr pages"
      "text = concat pages"
    with assms(1,2) show ?thesis
      by (simp add: read_and_summarize_doc_def cli_read_pdf_def)
  next
    assume "file_ext e file_path = asc ''.docx''" "docx_paragraphs e file_path = Inr paragraphs"
      "text = join [10] paragraphs"
    with assms(1,2) ne show ?thesis
      by (simp add: read_and_summarize_doc_def cli_read_docx_def)
  next
    assume "file_ext e file_path = asc ''.txt''" "open_read e file_path = Inr content"
      "utf8_decode content = Some s" "text = universal_newlines False s"
    with assms(1,2) ne show ?thesis
      by (simp add: read_and_summarize_doc_def cli_read_txt_def)
  qed
qed

theorem error_mark_in_document_is_returned_witness:
  "path_exists marked_pdf (asc ''notes.pdf'') \<and>
   sublist error_mark (asc ''Fix: '' @ error_mark) \<and>
   file_ext marked_pdf (asc ''notes.pdf'') = asc ''.pdf'' \<and>
   pdf_pages marked_pdf (asc ''notes.pdf'') = Inr [asc ''Fix: '' @ error_mark] \<and>
   read_and_summarize_doc marked_pdf (asc ''notes.pdf'') (asc ''small'') [] =
     (asc ''Fix: '' @ error_mark, [])"
proof -
  have p: "path_exists marked_pdf (asc ''notes.pdf'')"
    by (simp add: marked_pdf_def gemini_only_def offline_def)
  have s: "sublist error_mark (asc ''Fix: '' @ error_mark)"
    by simp
  have f: "file_ext marked_pdf (asc ''notes.pdf'') = asc ''.pdf''"
    "pdf_pages marked_pdf (asc ''notes.pdf'') = Inr [asc ''Fix: '' @ error_mark]"
    by (simp_all add: marked_pdf_def gemini_only_def offline_def)
  have c: "asc ''Fix: '' @ error_mark = concat [asc ''Fix: '' @ error_mark]"
    by simp
  have "read_and_summarize_doc marked_pdf (asc ''notes.pdf'') (asc ''small'') [] =
     (asc ''Fix: '' @ error_mark, [])"
    by (rule error_mark_in_document_is_returned [OF p s]) (use f c in blast)
  with p s f show ?thesis by blast
qed

end
